theory Spec2Isabelle
  imports Main
begin

section \<open>The Consumer of mediasoup-client (src/Consumer.ts)\<close>

text \<open>
  The class \<^verbatim>\<open>Consumer\<close> is a small state machine over two flags (\<^verbatim>\<open>_closed\<close>,
  \<^verbatim>\<open>_paused\<close>) that drives an external \<^verbatim>\<open>MediaStreamTrack\<close> and publishes events on two
  emitters: itself (it extends \<^verbatim>\<open>EnhancedEventEmitter\<close>) and \<^verbatim>\<open>this._observer\<close>.
  Mutation is explicit state passing; every call the Consumer makes on the track or on an
  emitter is appended to a trace, so that "what was emitted, in which order, through which
  delivery" is a value one can state theorems about. Logging is not modelled.
\<close>

subsection \<open>The external track\<close>

datatype MediaKind = audio | video

datatype error = InvalidStateError | ListenerError | TrackError

text \<open>
  \<^verbatim>\<open>MediaStreamTrack\<close> is a browser object, not code of this repository. The Consumer
  reads \<^verbatim>\<open>kind\<close>, reads and writes \<^verbatim>\<open>enabled\<close>, registers and removes one listener for the
  event \<^verbatim>\<open>'ended'\<close>, and calls \<^verbatim>\<open>stop()\<close>. The fields \<open>ended_listener\<close> (is
  \<^verbatim>\<open>onTrackEnded\<close> registered for \<^verbatim>\<open>'ended'\<close>) and \<open>ended\<close> (has the track reached its end of
  life) are the part of the track's state these calls change. \<open>remove_throws\<close> and
  \<open>stop_throws\<close> are the behaviour of the supplied track: whether its
  \<^verbatim>\<open>removeEventListener\<close> and its \<^verbatim>\<open>stop\<close> raise. \<^verbatim>\<open>destroyTrack\<close> wraps both in one
  \<^verbatim>\<open>try\<close>, so both possibilities are inputs of the model.
\<close>

record MediaStreamTrack =
  kind :: MediaKind
  enabled :: bool
  ended :: bool
  ended_listener :: bool
  remove_throws :: bool
  stop_throws :: bool

definition addEventListener :: "MediaStreamTrack \<Rightarrow> MediaStreamTrack" where
  "addEventListener t = t\<lparr>ended_listener := True\<rparr>"

definition removeEventListener :: "MediaStreamTrack \<Rightarrow> error + MediaStreamTrack" where
  "removeEventListener t =
     (if remove_throws t then Inl TrackError else Inr (t\<lparr>ended_listener := False\<rparr>))"

definition stop :: "MediaStreamTrack \<Rightarrow> error + MediaStreamTrack" where
  "stop t = (if stop_throws t then Inl TrackError else Inr (t\<lparr>ended := True\<rparr>))"

subsection \<open>The Consumer's state and its trace\<close>

text \<open>
  \<open>This\<close> is the Consumer itself as an emitter (\<^verbatim>\<open>this.emit\<close>, \<^verbatim>\<open>this.safeEmit\<close>): it
  carries the public events and the private ones, whose names start with \<^verbatim>\<open>@\<close>.
  \<open>Observer\<close> is \<^verbatim>\<open>this._observer\<close>.
\<close>

datatype channel = This | Observer

text \<open>\<open>Plain\<close> is a call of \<^verbatim>\<open>emit\<close>, \<open>Safe\<close> a call of \<^verbatim>\<open>safeEmit\<close>.\<close>

datatype delivery = Plain | Safe

text \<open>
  The arguments of \<^verbatim>\<open>'@getstats'\<close> are the \<^verbatim>\<open>resolve\<close> and \<^verbatim>\<open>reject\<close> functions of the
  promise that \<^verbatim>\<open>getStats\<close> creates; a promise is identified by the number of promises
  created before it.
\<close>

datatype arg = Resolve nat | Reject nat

datatype action =
    AddEventListener
  | RemoveEventListener
  | Stop
  | SetEnabled bool
  | Emit channel delivery string "arg list"

type_synonym AppData = "(string \<times> string) list"

record Consumer =
  ident :: string
  localId :: string
  producerId :: string
  closed :: bool
  rtpReceiver :: "nat option"
  track :: MediaStreamTrack
  rtpParameters :: string
  paused :: bool
  appData :: AppData
  promises :: nat
  trace :: "action list"

text \<open>
  What a call gives back to its caller: it returns, it throws, or (for the \<^verbatim>\<open>async\<close>
  method \<^verbatim>\<open>getStats\<close>) it returns a promise that is already rejected, or one that is
  left to the holder of its \<^verbatim>\<open>resolve\<close> and \<^verbatim>\<open>reject\<close> functions.
\<close>

datatype outcome = Returned | Threw error | Rejected error | Pending nat

subsection \<open>The event emitter\<close>

text \<open>
  The listeners are the caller's code. A listener can read the Consumer through its
  getters and it returns or throws; \<open>ls ch ev c\<close> says that delivering the event \<open>ev\<close> on
  the emitter \<open>ch\<close>, with the Consumer in state \<open>c\<close>, throws. Listeners that call back into
  the Consumer while an event is delivered are outside the model.
\<close>

type_synonym listeners = "channel \<Rightarrow> string \<Rightarrow> Consumer \<Rightarrow> bool"

text \<open>
  Modelled from the spec: the class \<^verbatim>\<open>EnhancedEventEmitter\<close> (file
  \<^verbatim>\<open>EnhancedEventEmitter.ts\<close>) is imported by \<^verbatim>\<open>Consumer.ts\<close> and is not among the sources.
  The spec gives it as a capability with two deliveries: "emit to all listeners", where a
  listener's failure propagates into the emitting call, and "emit to listeners while
  isolating emission failures", where it does not.
\<close>

definition emit ::
  "listeners \<Rightarrow> channel \<Rightarrow> string \<Rightarrow> arg list \<Rightarrow> Consumer \<Rightarrow> outcome \<times> Consumer" where
  "emit ls ch ev as c =
     (if ls ch ev c then Threw ListenerError else Returned,
      c\<lparr>trace := trace c @ [Emit ch Plain ev as]\<rparr>)"

text \<open>
  Modelled from the spec: \<^verbatim>\<open>safeEmit\<close> of the same class, the failure-isolating
  delivery.
\<close>

definition safeEmit ::
  "listeners \<Rightarrow> channel \<Rightarrow> string \<Rightarrow> arg list \<Rightarrow> Consumer \<Rightarrow> outcome \<times> Consumer" where
  "safeEmit ls ch ev as c = (Returned, c\<lparr>trace := trace c @ [Emit ch Safe ev as]\<rparr>)"

text \<open>Statement sequencing: an exception ends the method, with the state reached so far.\<close>

definition and_then ::
  "outcome \<times> Consumer \<Rightarrow> (Consumer \<Rightarrow> outcome \<times> Consumer) \<Rightarrow> outcome \<times> Consumer" where
  "and_then r f = (case fst r of Threw e \<Rightarrow> r | _ \<Rightarrow> f (snd r))"

subsection \<open>The methods of the class\<close>

text \<open>\<^verbatim>\<open>handleTrack\<close>: \<^verbatim>\<open>this._track.addEventListener('ended', this.onTrackEnded)\<close>.\<close>

definition handleTrack :: "Consumer \<Rightarrow> Consumer" where
  "handleTrack c =
     c\<lparr>track := addEventListener (track c), trace := trace c @ [AddEventListener]\<rparr>"

text \<open>
  \<^verbatim>\<open>destroyTrack\<close>: one \<^verbatim>\<open>try\<close> around \<^verbatim>\<open>removeEventListener\<close> followed by \<^verbatim>\<open>stop\<close>, with an
  empty \<^verbatim>\<open>catch\<close>. When the first call throws, the second is not made.
\<close>

definition destroyTrack :: "Consumer \<Rightarrow> Consumer" where
  "destroyTrack c =
     (let c1 = c\<lparr>trace := trace c @ [RemoveEventListener]\<rparr> in
      case removeEventListener (track c1) of
        Inl e \<Rightarrow> c1
      | Inr t1 \<Rightarrow>
          (let c2 = c1\<lparr>track := t1, trace := trace c1 @ [Stop]\<rparr> in
           case stop t1 of
             Inl e \<Rightarrow> c2
           | Inr t2 \<Rightarrow> c2\<lparr>track := t2\<rparr>))"

text \<open>The arguments of the constructor; \<^verbatim>\<open>rtpReceiver\<close> and \<^verbatim>\<open>appData\<close> are optional.\<close>

record ConsumerArgs =
  arg_id :: string
  arg_localId :: string
  arg_producerId :: string
  arg_rtpReceiver :: "nat option"
  arg_track :: MediaStreamTrack
  arg_rtpParameters :: string
  arg_appData :: "AppData option"

definition new_Consumer :: "ConsumerArgs \<Rightarrow> Consumer" where
  "new_Consumer a =
     handleTrack
       \<lparr>ident = arg_id a,
        localId = arg_localId a,
        producerId = arg_producerId a,
        closed = False,
        rtpReceiver = arg_rtpReceiver a,
        track = arg_track a,
        rtpParameters = arg_rtpParameters a,
        paused = (\<not> enabled (arg_track a)),
        appData = (case arg_appData a of None \<Rightarrow> [] | Some d \<Rightarrow> d),
        promises = 0,
        trace = []\<rparr>"

definition close :: "listeners \<Rightarrow> Consumer \<Rightarrow> outcome \<times> Consumer" where
  "close ls c =
     (if closed c then (Returned, c)
      else
        and_then (emit ls This ''@close'' [] (destroyTrack (c\<lparr>closed := True\<rparr>)))
          (safeEmit ls Observer ''close'' []))"

definition transportClosed :: "listeners \<Rightarrow> Consumer \<Rightarrow> outcome \<times> Consumer" where
  "transportClosed ls c =
     (if closed c then (Returned, c)
      else
        and_then (safeEmit ls This ''transportclose'' [] (destroyTrack (c\<lparr>closed := True\<rparr>)))
          (safeEmit ls Observer ''close'' []))"

text \<open>
  \<^verbatim>\<open>getStats\<close> is \<^verbatim>\<open>async\<close>: its \<^verbatim>\<open>throw\<close> settles the promise it returns as rejected before
  the call returns. Otherwise the executor of the new promise hands \<^verbatim>\<open>resolve\<close> and
  \<^verbatim>\<open>reject\<close> to \<^verbatim>\<open>safeEmit\<close>.
\<close>

definition getStats :: "listeners \<Rightarrow> Consumer \<Rightarrow> outcome \<times> Consumer" where
  "getStats ls c =
     (if closed c then (Rejected InvalidStateError, c)
      else
        (let p = promises c in
         (Pending p,
          snd (safeEmit ls This ''@getstats'' [Resolve p, Reject p]
                 (c\<lparr>promises := Suc p\<rparr>)))))"

definition pause :: "listeners \<Rightarrow> Consumer \<Rightarrow> outcome \<times> Consumer" where
  "pause ls c =
     (if closed c then (Returned, c)
      else if paused c then (Returned, c)
      else
        and_then
          (emit ls This ''@pause'' []
             (c\<lparr>paused := True,
                track := (track c)\<lparr>enabled := False\<rparr>,
                trace := trace c @ [SetEnabled False]\<rparr>))
          (safeEmit ls Observer ''pause'' []))"

definition resume :: "listeners \<Rightarrow> Consumer \<Rightarrow> outcome \<times> Consumer" where
  "resume ls c =
     (if closed c then (Returned, c)
      else if \<not> paused c then (Returned, c)
      else
        and_then
          (emit ls This ''@resume'' []
             (c\<lparr>paused := False,
                track := (track c)\<lparr>enabled := True\<rparr>,
                trace := trace c @ [SetEnabled True]\<rparr>))
          (safeEmit ls Observer ''resume'' []))"

definition onTrackEnded :: "listeners \<Rightarrow> Consumer \<Rightarrow> outcome \<times> Consumer" where
  "onTrackEnded ls c =
     and_then (safeEmit ls This ''trackended'' [] c) (safeEmit ls Observer ''trackended'' [])"

text \<open>
  Modelled from the spec: the track's end-of-life notification ("subscribe/unsubscribe to
  an end-of-life notification"). The track has ended, and the handler runs when it is
  still registered for \<^verbatim>\<open>'ended'\<close>; a listener that was removed is not called.
\<close>

definition trackEnds :: "listeners \<Rightarrow> Consumer \<Rightarrow> outcome \<times> Consumer" where
  "trackEnds ls c =
     (let c1 = c\<lparr>track := (track c)\<lparr>ended := True\<rparr>\<rparr> in
      if ended_listener (track c1) then onTrackEnded ls c1 else (Returned, c1))"

subsection \<open>Sequences of calls\<close>

datatype call =
    Close
  | TransportClosed
  | GetStats
  | Pause
  | Resume
  | SetAppData AppData
  | TrackEnds

fun step :: "listeners \<Rightarrow> call \<Rightarrow> Consumer \<Rightarrow> outcome \<times> Consumer" where
  "step ls Close c = close ls c"
| "step ls TransportClosed c = transportClosed ls c"
| "step ls GetStats c = getStats ls c"
| "step ls Pause c = pause ls c"
| "step ls Resume c = resume ls c"
| "step ls (SetAppData d) c = (Returned, c\<lparr>appData := d\<rparr>)"
| "step ls TrackEnds c = trackEnds ls c"

text \<open>
  A history is a list of calls, each with the listeners registered when it is made. A call
  that throws leaves the state it reached, and the history goes on from there. \<open>states\<close>
  lists the state after each call, \<open>run\<close> gives the last one.
\<close>

fun states :: "(listeners \<times> call) list \<Rightarrow> Consumer \<Rightarrow> Consumer list" where
  "states [] c = []"
| "states (lk # rest) c = snd (step (fst lk) (snd lk) c) # states rest (snd (step (fst lk) (snd lk) c))"

fun run :: "(listeners \<times> call) list \<Rightarrow> Consumer \<Rightarrow> Consumer" where
  "run [] c = c"
| "run (lk # rest) c = run rest (snd (step (fst lk) (snd lk) c))"

text \<open>The part of the trace that one call adds.\<close>

definition added :: "Consumer \<Rightarrow> Consumer \<Rightarrow> action list" where
  "added c c' = drop (length (trace c)) (trace c')"

text \<open>The private events are those whose name starts with \<^verbatim>\<open>@\<close>.\<close>

definition private_event :: "string \<Rightarrow> bool" where
  "private_event ev = (case ev of [] \<Rightarrow> False | x # _ \<Rightarrow> x = CHR ''@'')"

text \<open>Concrete inputs for the examples.\<close>

definition demo_track :: MediaStreamTrack where
  "demo_track =
     \<lparr>kind = video, enabled = True, ended = False, ended_listener = False,
      remove_throws = False, stop_throws = False\<rparr>"

definition demo_args :: ConsumerArgs where
  "demo_args =
     \<lparr>arg_id = ''c1'', arg_localId = ''0'', arg_producerId = ''p1'',
      arg_rtpReceiver = None, arg_track = demo_track,
      arg_rtpParameters = ''params'', arg_appData = None\<rparr>"

definition quiet :: listeners where
  "quiet = (\<lambda>ch ev c. False)"

definition throwing :: listeners where
  "throwing = (\<lambda>ch ev c. True)"

subsection \<open>Predicates used in the statements\<close>

text \<open>The two calls that terminate a Consumer.\<close>

definition terminating :: "call \<Rightarrow> bool" where
  "terminating k = (k = Close \<or> k = TransportClosed)"

text \<open>
  The handler is registered on the track exactly as long as the Consumer is open, or
  for ever when the track's \<^verbatim>\<open>removeEventListener\<close> throws.
\<close>

definition listening :: "Consumer \<Rightarrow> bool" where
  "listening c = (ended_listener (track c) = (\<not> closed c \<or> remove_throws (track c)))"

text \<open>
  \<^verbatim>\<open>stop()\<close> has been called once if the Consumer is closed and the detach before it did
  not throw, and never otherwise.
\<close>

definition stopped_once :: "Consumer \<Rightarrow> bool" where
  "stopped_once c =
     (count_list (trace c) Stop = (if closed c \<and> \<not> remove_throws (track c) then 1 else 0))"


section \<open>Properties\<close>

lemmas track_defs = addEventListener_def removeEventListener_def stop_def
lemmas emitter_defs = emit_def safeEmit_def and_then_def
lemmas method_defs = close_def transportClosed_def getStats_def pause_def resume_def
  onTrackEnded_def trackEnds_def destroyTrack_def handleTrack_def
lemmas demo_defs = demo_track_def demo_args_def quiet_def throwing_def new_Consumer_def

subsection \<open>Facts about single calls and histories\<close>

lemma step_sync:
  "enabled (track c) = (\<not> paused c) \<Longrightarrow>
   enabled (track (snd (step ls k c))) = (\<not> paused (snd (step ls k c)))"
  by (cases k) (simp_all add: method_defs emitter_defs track_defs Let_def split: sum.splits)

lemma states_sync:
  "enabled (track c) = (\<not> paused c) \<Longrightarrow>
   \<forall>c' \<in> set (states calls c). enabled (track c') = (\<not> paused c')"
proof (induction calls arbitrary: c)
  case Nil
  then show ?case by simp
next
  case (Cons lk rest)
  have "enabled (track (snd (step (fst lk) (snd lk) c))) =
        (\<not> paused (snd (step (fst lk) (snd lk) c)))"
    using Cons.prems by (rule step_sync)
  then show ?case using Cons.IH by simp
qed

lemma step_closed: "closed c \<Longrightarrow> closed (snd (step ls k c))"
  by (cases k) (simp_all add: method_defs emitter_defs Let_def)

lemma run_closed: "closed c \<Longrightarrow> closed (run calls c)"
  by (induction calls arbitrary: c) (simp_all add: step_closed)

lemma step_closed_iff: "closed (snd (step ls k c)) = (closed c \<or> terminating k)"
  by (cases k)
     (auto simp add: terminating_def method_defs emitter_defs track_defs Let_def
           split: sum.splits)

lemma run_closed_iff:
  "closed (run calls c) = (closed c \<or> (\<exists>lk \<in> set calls. terminating (snd lk)))"
  by (induction calls arbitrary: c) (auto simp add: step_closed_iff)

lemma step_remove_throws:
  "remove_throws (track (snd (step ls k c))) = remove_throws (track c)"
  by (cases k) (simp_all add: method_defs emitter_defs track_defs Let_def)

lemma run_remove_throws: "remove_throws (track (run calls c)) = remove_throws (track c)"
  by (induction calls arbitrary: c) (simp_all add: step_remove_throws)

lemma step_listening: "listening c \<Longrightarrow> listening (snd (step ls k c))"
  unfolding listening_def
  by (cases k) (auto simp add: method_defs emitter_defs track_defs Let_def)

lemma run_listening: "listening c \<Longrightarrow> listening (run calls c)"
  by (induction calls arbitrary: c) (simp_all add: step_listening)

lemma new_listening: "listening (new_Consumer a)"
  by (simp add: listening_def new_Consumer_def handleTrack_def addEventListener_def)

lemma step_stopped_once: "stopped_once c \<Longrightarrow> stopped_once (snd (step ls k c))"
  unfolding stopped_once_def
  by (cases k) (auto simp add: method_defs emitter_defs track_defs Let_def)

lemma run_stopped_once: "stopped_once c \<Longrightarrow> stopped_once (run calls c)"
  by (induction calls arbitrary: c) (simp_all add: step_stopped_once)

lemma new_stopped_once: "stopped_once (new_Consumer a)"
  by (simp add: stopped_once_def new_Consumer_def handleTrack_def addEventListener_def)

lemma step_deliveries:
  "Emit ch d ev as \<in> set (added c (snd (step ls k c))) \<Longrightarrow>
     (d = Plain) = (ch = This \<and> ev \<in> {''@close'', ''@pause'', ''@resume''})"
  by (cases k)
     (auto simp add: added_def method_defs emitter_defs track_defs Let_def
           split: if_splits sum.splits)


subsection \<open>C1: the track's enabled flag mirrors the paused flag\<close>

text \<open>
  Claim C1. For every sequence of \<^verbatim>\<open>pause()\<close> and \<^verbatim>\<open>resume()\<close> calls on a Consumer that is
  not closed, immediately after each call the track's \<^verbatim>\<open>enabled\<close> flag equals the negation
  of the Consumer's \<^verbatim>\<open>paused\<close> flag. It is proved for every history of calls from
  construction on (of which the sequences of \<^verbatim>\<open>pause\<close> and \<^verbatim>\<open>resume\<close> on an open Consumer
  are a part), whatever the listeners do, and also after a call that ends by an exception
  of the \<^verbatim>\<open>'@pause'\<close> or \<^verbatim>\<open>'@resume'\<close> listener.
\<close>

theorem pause_resume_keep_track_in_sync:
  "\<forall>c' \<in> set (states calls (new_Consumer a)). enabled (track c') = (\<not> paused c')"
  by (rule states_sync) (simp add: new_Consumer_def handleTrack_def addEventListener_def)

theorem pause_resume_keep_track_in_sync_witness:
  "snd (pause throwing (new_Consumer demo_args))
     \<in> set (states [(throwing, Pause), (quiet, Resume)] (new_Consumer demo_args))
   \<and> paused (snd (pause throwing (new_Consumer demo_args)))
   \<and> \<not> enabled (track (snd (pause throwing (new_Consumer demo_args))))"
  using pause_resume_keep_track_in_sync
          [of "[(throwing, Pause), (quiet, Resume)]" demo_args]
  by (simp add: pause_def emitter_defs demo_defs handleTrack_def addEventListener_def)

subsection \<open>C2: closed is monotonic, termination is idempotent\<close>

text \<open>
  Claim C2. Once \<^verbatim>\<open>close()\<close> or \<^verbatim>\<open>transportClosed()\<close> has set the closed flag it never
  reverts, whatever is called afterwards, and each later \<^verbatim>\<open>close()\<close> or
  \<^verbatim>\<open>transportClosed()\<close> returns with the whole state as it was: the flags, the track and
  the trace, so nothing is emitted on any channel.
\<close>

theorem closed_is_monotonic:
  "closed c \<Longrightarrow>
     close ls c = (Returned, c) \<and> transportClosed ls c = (Returned, c) \<and> closed (run calls c)"
  by (simp add: close_def transportClosed_def run_closed)

theorem closed_is_monotonic_witness:
  "closed (snd (close quiet (new_Consumer demo_args)))
   \<and> close throwing (snd (close quiet (new_Consumer demo_args)))
       = (Returned, snd (close quiet (new_Consumer demo_args)))
   \<and> transportClosed throwing (snd (close quiet (new_Consumer demo_args)))
       = (Returned, snd (close quiet (new_Consumer demo_args)))
   \<and> closed (run [(quiet, Resume), (quiet, TrackEnds), (quiet, TransportClosed)]
               (snd (close quiet (new_Consumer demo_args))))"
proof -
  have h: "closed (snd (close quiet (new_Consumer demo_args)))"
    by (simp add: close_def emitter_defs destroyTrack_def track_defs demo_defs
                  handleTrack_def Let_def)
  show ?thesis
    using h closed_is_monotonic [OF h, of throwing
            "[(quiet, Resume), (quiet, TrackEnds), (quiet, TransportClosed)]"]
    by simp
qed

subsection \<open>C3: the track ends after close\<close>

text \<open>
  Claim C3 says that a track end-of-life notification arriving after \<^verbatim>\<open>close()\<close> still
  yields one \<^verbatim>\<open>trackended\<close> on each channel. As stated it fails: \<^verbatim>\<open>close()\<close> calls
  \<^verbatim>\<open>destroyTrack\<close>, which removes \<^verbatim>\<open>onTrackEnded\<close> from the track's \<^verbatim>\<open>'ended'\<close> listeners, so
  on a track whose \<^verbatim>\<open>removeEventListener\<close> works the later notification reaches no handler
  and nothing is added to the trace.
\<close>

theorem trackended_after_close_counterexample:
  "added (snd (step quiet Close (new_Consumer demo_args)))
     (snd (step quiet TrackEnds (snd (step quiet Close (new_Consumer demo_args))))) = []"
  by (simp add: added_def method_defs emitter_defs track_defs demo_defs Let_def)

text \<open>
  Claim C3, amended. On a closed Consumer the handler \<^verbatim>\<open>onTrackEnded\<close>, whenever it runs,
  makes exactly one \<^verbatim>\<open>trackended\<close> emission on the Consumer and one on the observer, both
  through \<^verbatim>\<open>safeEmit\<close>, returns without throwing whatever the listeners do, and changes
  nothing else (so neither \<^verbatim>\<open>closed\<close> nor \<^verbatim>\<open>paused\<close>). A notification of the track after
  termination runs the handler only if the detach failed during termination (the track's
  \<^verbatim>\<open>removeEventListener\<close> threw); when the detach succeeded it yields no emission. In both
  cases the notification does not throw and leaves \<^verbatim>\<open>closed\<close> and \<^verbatim>\<open>paused\<close> as they were.
\<close>

theorem trackended_after_close:
  assumes "c = run calls (new_Consumer a)" and "closed c"
  shows "onTrackEnded ls c =
           (Returned,
            c\<lparr>trace := trace c @
                 [Emit This Safe ''trackended'' [], Emit Observer Safe ''trackended'' []]\<rparr>)
         \<and> fst (trackEnds ls c) = Returned
         \<and> closed (snd (trackEnds ls c)) = closed c
         \<and> paused (snd (trackEnds ls c)) = paused c
         \<and> added c (snd (trackEnds ls c)) =
             (if remove_throws (arg_track a)
              then [Emit This Safe ''trackended'' [], Emit Observer Safe ''trackended'' []]
              else [])"
proof -
  have l: "listening c"
    using assms(1) new_listening by (simp add: run_listening)
  have r: "remove_throws (track c) = remove_throws (arg_track a)"
    using assms(1)
    by (simp add: run_remove_throws new_Consumer_def handleTrack_def addEventListener_def)
  have e: "ended_listener (track c) = remove_throws (arg_track a)"
    using l r assms(2) by (simp add: listening_def)
  have 1: "onTrackEnded ls c =
           (Returned,
            c\<lparr>trace := trace c @
                 [Emit This Safe ''trackended'' [], Emit Observer Safe ''trackended'' []]\<rparr>)"
    by (simp add: onTrackEnded_def emitter_defs)
  have 2: "fst (trackEnds ls c) = Returned"
    by (simp add: trackEnds_def onTrackEnded_def emitter_defs Let_def)
  have 3: "closed (snd (trackEnds ls c)) = closed c"
    by (simp add: trackEnds_def onTrackEnded_def emitter_defs Let_def)
  have 4: "paused (snd (trackEnds ls c)) = paused c"
    by (simp add: trackEnds_def onTrackEnded_def emitter_defs Let_def)
  have 5: "added c (snd (trackEnds ls c)) =
             (if remove_throws (arg_track a)
              then [Emit This Safe ''trackended'' [], Emit Observer Safe ''trackended'' []]
              else [])"
    using e by (simp add: added_def trackEnds_def onTrackEnded_def emitter_defs Let_def)
  from 1 2 3 4 5 show ?thesis by blast
qed

text \<open>
  The witness is a track whose \<^verbatim>\<open>removeEventListener\<close> throws: the Consumer is closed, the
  handler is still registered, and the notification gives the two emissions although every
  listener throws.
\<close>

theorem trackended_after_close_witness:
  "closed (run [(quiet, Close)] (new_Consumer (demo_args\<lparr>arg_track := demo_track\<lparr>remove_throws := True\<rparr>\<rparr>)))
   \<and> fst (trackEnds throwing
            (run [(quiet, Close)] (new_Consumer (demo_args\<lparr>arg_track := demo_track\<lparr>remove_throws := True\<rparr>\<rparr>))))
       = Returned
   \<and> added (run [(quiet, Close)] (new_Consumer (demo_args\<lparr>arg_track := demo_track\<lparr>remove_throws := True\<rparr>\<rparr>)))
       (snd (trackEnds throwing
            (run [(quiet, Close)] (new_Consumer (demo_args\<lparr>arg_track := demo_track\<lparr>remove_throws := True\<rparr>\<rparr>)))))
       = [Emit This Safe ''trackended'' [], Emit Observer Safe ''trackended'' []]"
proof -
  have h: "closed (run [(quiet, Close)]
             (new_Consumer (demo_args\<lparr>arg_track := demo_track\<lparr>remove_throws := True\<rparr>\<rparr>)))"
    by (simp add: close_def emitter_defs destroyTrack_def track_defs demo_defs
                  handleTrack_def Let_def)
  show ?thesis
    using h trackended_after_close [OF refl h, of throwing]
    by (simp add: demo_args_def demo_track_def)
qed

subsection \<open>C4: getStats\<close>

text \<open>
  Claim C4 says that \<^verbatim>\<open>getStats()\<close> on a closed Consumer fails synchronously. As stated
  it fails: the method is \<^verbatim>\<open>async\<close>, so its \<^verbatim>\<open>throw\<close> does not reach the caller as an
  exception of the call. The call returns, and what it returns is a promise that is
  already rejected with \<^verbatim>\<open>InvalidStateError\<close>.
\<close>

theorem getStats_throws_synchronously_counterexample:
  "closed (snd (close quiet (new_Consumer demo_args)))
   \<and> fst (getStats quiet (snd (close quiet (new_Consumer demo_args))))
       = Rejected InvalidStateError
   \<and> fst (getStats quiet (snd (close quiet (new_Consumer demo_args))))
       \<noteq> Threw InvalidStateError"
  by (simp add: method_defs emitter_defs track_defs demo_defs Let_def)

text \<open>
  Claim C4, amended. \<^verbatim>\<open>getStats()\<close> never throws into its caller. On a closed Consumer it
  returns a promise that is already rejected with \<^verbatim>\<open>InvalidStateError\<close> and emits nothing:
  the state, trace included, is unchanged. On an open Consumer it makes exactly one
  emission, \<^verbatim>\<open>'@getstats'\<close> with the \<^verbatim>\<open>resolve\<close> and the \<^verbatim>\<open>reject\<close> function of the new
  promise, and returns that promise unsettled.
\<close>

theorem getStats_closed_or_pending:
  "fst (getStats ls c) \<noteq> Threw e \<and>
   (closed c \<longrightarrow> getStats ls c = (Rejected InvalidStateError, c)) \<and>
   (\<not> closed c \<longrightarrow>
      fst (getStats ls c) = Pending (promises c) \<and>
      added c (snd (getStats ls c)) =
        [Emit This Safe ''@getstats'' [Resolve (promises c), Reject (promises c)]])"
  by (simp add: getStats_def safeEmit_def added_def Let_def)

theorem getStats_closed_or_pending_witness:
  "closed (snd (close quiet (new_Consumer demo_args)))
   \<and> getStats quiet (snd (close quiet (new_Consumer demo_args)))
       = (Rejected InvalidStateError, snd (close quiet (new_Consumer demo_args)))
   \<and> \<not> closed (new_Consumer demo_args)
   \<and> fst (getStats quiet (new_Consumer demo_args)) = Pending 0
   \<and> added (new_Consumer demo_args) (snd (getStats quiet (new_Consumer demo_args)))
       = [Emit This Safe ''@getstats'' [Resolve 0, Reject 0]]"
proof -
  have h: "closed (snd (close quiet (new_Consumer demo_args)))"
    by (simp add: close_def emitter_defs destroyTrack_def track_defs demo_defs
                  handleTrack_def Let_def)
  have o: "\<not> closed (new_Consumer demo_args)"
    by (simp add: new_Consumer_def handleTrack_def)
  have p: "promises (new_Consumer demo_args) = 0"
    by (simp add: new_Consumer_def handleTrack_def)
  show ?thesis
    using h o p
      getStats_closed_or_pending [of quiet "snd (close quiet (new_Consumer demo_args))"]
      getStats_closed_or_pending [of quiet "new_Consumer demo_args"]
    by simp
qed

subsection \<open>C5: what termination does to the track\<close>

text \<open>
  Claim C5 says that the first terminating call disables the track and stops it. As stated
  it fails: \<^verbatim>\<open>destroyTrack\<close> removes the listener and calls \<^verbatim>\<open>stop()\<close>, and no statement
  of \<^verbatim>\<open>close\<close>, \<^verbatim>\<open>transportClosed\<close> or \<^verbatim>\<open>destroyTrack\<close> writes \<^verbatim>\<open>track.enabled\<close>. A Consumer
  built on an enabled track and closed has a track that is still enabled.
\<close>

theorem termination_disables_track_counterexample:
  "closed (snd (close quiet (new_Consumer demo_args)))
   \<and> enabled (track (snd (close quiet (new_Consumer demo_args))))"
  by (simp add: method_defs emitter_defs track_defs demo_defs Let_def)

text \<open>
  Claim C5, amended. The first terminating call (\<^verbatim>\<open>close()\<close> or \<^verbatim>\<open>transportClosed()\<close>)
  leaves the track's \<^verbatim>\<open>enabled\<close> flag as it was; it calls the track's
  \<^verbatim>\<open>removeEventListener\<close> and, when that does not throw, the track's \<^verbatim>\<open>stop()\<close>, before
  anything else. Over the Consumer's whole lifetime, whatever is called and whatever the
  listeners do, \<^verbatim>\<open>stop()\<close> is called exactly once if the history has a terminating call
  and the detach does not throw, and never otherwise.
\<close>

theorem termination_stops_track_once:
  "count_list (trace (run calls (new_Consumer a))) Stop =
     (if (\<exists>lk \<in> set calls. terminating (snd lk)) \<and> \<not> remove_throws (arg_track a)
      then 1 else 0)
   \<and> (\<not> closed c \<longrightarrow>
        enabled (track (snd (close ls c))) = enabled (track c) \<and>
        enabled (track (snd (transportClosed ls c))) = enabled (track c))
   \<and> (\<not> closed c \<and> \<not> remove_throws (track c) \<longrightarrow>
        take 2 (added c (snd (close ls c))) = [RemoveEventListener, Stop] \<and>
        take 2 (added c (snd (transportClosed ls c))) = [RemoveEventListener, Stop])"
proof -
  have "stopped_once (run calls (new_Consumer a))"
    using new_stopped_once by (rule run_stopped_once)
  moreover have "closed (run calls (new_Consumer a)) = (\<exists>lk \<in> set calls. terminating (snd lk))"
    by (simp add: run_closed_iff new_Consumer_def handleTrack_def)
  moreover have "remove_throws (track (run calls (new_Consumer a))) = remove_throws (arg_track a)"
    by (simp add: run_remove_throws new_Consumer_def handleTrack_def addEventListener_def)
  ultimately have "count_list (trace (run calls (new_Consumer a))) Stop =
     (if (\<exists>lk \<in> set calls. terminating (snd lk)) \<and> \<not> remove_throws (arg_track a)
      then 1 else 0)"
    by (simp add: stopped_once_def)
  then show ?thesis
    by (simp add: method_defs emitter_defs track_defs Let_def added_def)
qed

theorem termination_stops_track_once_witness:
  "count_list
     (trace (run [(quiet, Pause), (throwing, Close), (quiet, TransportClosed), (quiet, Close)]
               (new_Consumer demo_args))) Stop = 1
   \<and> \<not> closed (new_Consumer demo_args)
   \<and> enabled (track (snd (close quiet (new_Consumer demo_args))))
   \<and> take 2 (added (new_Consumer demo_args) (snd (close quiet (new_Consumer demo_args))))
       = [RemoveEventListener, Stop]"
  using termination_stops_track_once
          [of "[(quiet, Pause), (throwing, Close), (quiet, TransportClosed), (quiet, Close)]"
              demo_args "new_Consumer demo_args" quiet]
  by (simp add: terminating_def demo_defs handleTrack_def addEventListener_def)

subsection \<open>C6: how the private events are delivered\<close>

text \<open>
  Claim C6 says that every private event, \<^verbatim>\<open>'@getstats'\<close> included, is emitted without
  the failure-isolating wrapper, so that a failure of the owner's handler reaches the
  caller. As stated it fails: \<^verbatim>\<open>getStats\<close> hands \<^verbatim>\<open>'@getstats'\<close> to \<^verbatim>\<open>safeEmit\<close>. With a
  handler that throws, the call still returns its promise, unsettled.
\<close>

theorem getstats_uses_safeEmit_counterexample:
  "private_event ''@getstats'' \<and>
   step throwing GetStats (new_Consumer demo_args) =
     (Pending 0,
      (new_Consumer demo_args)
        \<lparr>promises := 1,
         trace := [AddEventListener, Emit This Safe ''@getstats'' [Resolve 0, Reject 0]]\<rparr>)"
  by (simp add: private_event_def method_defs emitter_defs track_defs demo_defs Let_def)

text \<open>
  Claim C6, amended. The signals \<^verbatim>\<open>'@close'\<close>, \<^verbatim>\<open>'@pause'\<close> and \<^verbatim>\<open>'@resume'\<close> are emitted
  without the failure-isolating wrapper (and they are the only events that are), so a
  failure of the owner's handler propagates to the caller of \<^verbatim>\<open>close()\<close>, \<^verbatim>\<open>pause()\<close> or
  \<^verbatim>\<open>resume()\<close>. The stats request \<^verbatim>\<open>'@getstats'\<close> is emitted through the failure-isolating
  wrapper: whatever its handler does, \<^verbatim>\<open>getStats()\<close> on an open Consumer returns its
  promise.
\<close>

theorem private_event_delivery:
  "(\<forall>ch d ev as. Emit ch d ev as \<in> set (added c (snd (step ls k c))) \<longrightarrow>
       (d = Plain) = (ch = This \<and> ev \<in> {''@close'', ''@pause'', ''@resume''}))
   \<and> (\<not> closed c \<and> (\<forall>c'. ls This ''@close'' c') \<longrightarrow>
        fst (close ls c) = Threw ListenerError)
   \<and> (\<not> closed c \<and> \<not> paused c \<and> (\<forall>c'. ls This ''@pause'' c') \<longrightarrow>
        fst (pause ls c) = Threw ListenerError)
   \<and> (\<not> closed c \<and> paused c \<and> (\<forall>c'. ls This ''@resume'' c') \<longrightarrow>
        fst (resume ls c) = Threw ListenerError)
   \<and> (\<not> closed c \<longrightarrow>
        fst (getStats ls c) = Pending (promises c) \<and>
        added c (snd (getStats ls c)) =
          [Emit This Safe ''@getstats'' [Resolve (promises c), Reject (promises c)]])"
proof -
  have "\<forall>ch d ev as. Emit ch d ev as \<in> set (added c (snd (step ls k c))) \<longrightarrow>
       (d = Plain) = (ch = This \<and> ev \<in> {''@close'', ''@pause'', ''@resume''})"
    using step_deliveries by blast
  then show ?thesis
    by (simp add: added_def close_def pause_def resume_def getStats_def emitter_defs Let_def)
qed

theorem private_event_delivery_witness:
  "Emit This Plain ''@close'' []
     \<in> set (added (new_Consumer demo_args) (snd (step throwing Close (new_Consumer demo_args))))
   \<and> fst (close throwing (new_Consumer demo_args)) = Threw ListenerError
   \<and> fst (pause throwing (new_Consumer demo_args)) = Threw ListenerError
   \<and> fst (getStats throwing (new_Consumer demo_args)) = Pending 0"
  using private_event_delivery [of "new_Consumer demo_args" throwing Close]
  by (simp add: demo_defs handleTrack_def addEventListener_def added_def method_defs
                emitter_defs track_defs Let_def)

subsection \<open>C7: redundant pause and resume\<close>

text \<open>
  Claim C7. \<^verbatim>\<open>pause()\<close> on a paused Consumer and \<^verbatim>\<open>resume()\<close> on one that is not paused
  return with the whole state as it was: flags, track (so its \<^verbatim>\<open>enabled\<close> flag) and trace
  (so no event on any channel).
\<close>

theorem redundant_pause_resume_noop:
  "(paused c \<longrightarrow> pause ls c = (Returned, c)) \<and> (\<not> paused c \<longrightarrow> resume ls c = (Returned, c))"
  by (simp add: pause_def resume_def)

theorem redundant_pause_resume_noop_witness:
  "paused (snd (pause quiet (new_Consumer demo_args)))
   \<and> pause throwing (snd (pause quiet (new_Consumer demo_args)))
       = (Returned, snd (pause quiet (new_Consumer demo_args)))
   \<and> \<not> paused (new_Consumer demo_args)
   \<and> resume throwing (new_Consumer demo_args) = (Returned, new_Consumer demo_args)"
proof -
  have h: "paused (snd (pause quiet (new_Consumer demo_args)))"
    by (simp add: pause_def emitter_defs demo_defs handleTrack_def addEventListener_def)
  have o: "\<not> paused (new_Consumer demo_args)"
    by (simp add: demo_defs handleTrack_def)
  show ?thesis
    using h o
      redundant_pause_resume_noop [of "snd (pause quiet (new_Consumer demo_args))" throwing]
      redundant_pause_resume_noop [of "new_Consumer demo_args" throwing]
    by simp
qed

subsection \<open>C8: the constructor\<close>

text \<open>
  Claim C8. The constructor sets \<^verbatim>\<open>paused\<close> to the negation of the supplied track's
  \<^verbatim>\<open>enabled\<close> flag, leaves that flag as it is and the Consumer open, and emits nothing: its
  only call is the registration of the \<^verbatim>\<open>'ended'\<close> listener.
\<close>

theorem constructor_derives_paused:
  "paused (new_Consumer a) = (\<not> enabled (arg_track a))
   \<and> \<not> closed (new_Consumer a)
   \<and> enabled (track (new_Consumer a)) = enabled (arg_track a)
   \<and> trace (new_Consumer a) = [AddEventListener]"
  by (simp add: new_Consumer_def handleTrack_def addEventListener_def)

theorem constructor_derives_paused_witness:
  "paused (new_Consumer (demo_args\<lparr>arg_track := demo_track\<lparr>enabled := False\<rparr>\<rparr>))
   \<and> \<not> paused (new_Consumer demo_args)
   \<and> trace (new_Consumer (demo_args\<lparr>arg_track := demo_track\<lparr>enabled := False\<rparr>\<rparr>))
       = [AddEventListener]"
  using constructor_derives_paused [of "demo_args\<lparr>arg_track := demo_track\<lparr>enabled := False\<rparr>\<rparr>"]
        constructor_derives_paused [of demo_args]
  by (simp add: demo_args_def demo_track_def)

subsection \<open>C9: a track that fails during termination\<close>

text \<open>
  Claim C9. Whatever the track's \<^verbatim>\<open>removeEventListener\<close> and \<^verbatim>\<open>stop\<close> do, throwing included,
  \<^verbatim>\<open>close()\<close> and \<^verbatim>\<open>transportClosed()\<close> on an open Consumer set \<^verbatim>\<open>closed\<close> and go on to their
  emissions; the track's failure never reaches the caller. \<^verbatim>\<open>transportClosed()\<close> returns,
  and \<^verbatim>\<open>close()\<close> returns unless the \<^verbatim>\<open>'@close'\<close> listener throws.
\<close>

theorem termination_survives_track_failure:
  "\<not> closed c \<Longrightarrow>
     closed (snd (close ls c)) \<and> closed (snd (transportClosed ls c))
     \<and> fst (close ls c) \<noteq> Threw TrackError
     \<and> (\<not> ls This ''@close'' (destroyTrack (c\<lparr>closed := True\<rparr>)) \<longrightarrow>
          fst (close ls c) = Returned \<and>
          Emit Observer Safe ''close'' [] \<in> set (added c (snd (close ls c))))
     \<and> fst (transportClosed ls c) = Returned
     \<and> Emit Observer Safe ''close'' [] \<in> set (added c (snd (transportClosed ls c)))"
  by (simp add: added_def method_defs emitter_defs track_defs Let_def split: sum.splits)

text \<open>The witnesses: a track whose detach throws, and one whose \<^verbatim>\<open>stop()\<close> throws.\<close>

theorem termination_survives_track_failure_witness:
  "\<not> closed (new_Consumer (demo_args\<lparr>arg_track := demo_track\<lparr>remove_throws := True\<rparr>\<rparr>))
   \<and> close quiet (new_Consumer (demo_args\<lparr>arg_track := demo_track\<lparr>remove_throws := True\<rparr>\<rparr>))
       = (Returned,
          (new_Consumer (demo_args\<lparr>arg_track := demo_track\<lparr>remove_throws := True\<rparr>\<rparr>))
            \<lparr>closed := True,
             trace := [AddEventListener, RemoveEventListener,
                       Emit This Plain ''@close'' [], Emit Observer Safe ''close'' []]\<rparr>)
   \<and> \<not> closed (new_Consumer (demo_args\<lparr>arg_track := demo_track\<lparr>stop_throws := True\<rparr>\<rparr>))
   \<and> fst (transportClosed quiet
            (new_Consumer (demo_args\<lparr>arg_track := demo_track\<lparr>stop_throws := True\<rparr>\<rparr>)))
       = Returned
   \<and> closed (snd (transportClosed quiet
            (new_Consumer (demo_args\<lparr>arg_track := demo_track\<lparr>stop_throws := True\<rparr>\<rparr>))))"
proof -
  have o1: "\<not> closed (new_Consumer (demo_args\<lparr>arg_track := demo_track\<lparr>remove_throws := True\<rparr>\<rparr>))"
    by (simp add: new_Consumer_def handleTrack_def)
  have o2: "\<not> closed (new_Consumer (demo_args\<lparr>arg_track := demo_track\<lparr>stop_throws := True\<rparr>\<rparr>))"
    by (simp add: new_Consumer_def handleTrack_def)
  show ?thesis
    using o1 o2
      termination_survives_track_failure [OF o1, of quiet]
      termination_survives_track_failure [OF o2, of quiet]
    by (simp add: method_defs emitter_defs track_defs demo_defs Let_def)
qed

subsection \<open>C10: the Consumer is torn down before anything is emitted\<close>




end
